theory Spec2Isabelle
  imports Complex_Main
begin

text \<open>
  A shallow embedding of the currency formatter and parser of
  \<^verbatim>\<open>src/Components/CurrencyInput.tsx\<close>: \<^verbatim>\<open>formatCurrency\<close> (lines 165-194) and
  \<^verbatim>\<open>parseCurrency\<close> (lines 201-208), together with the ECMAScript built-ins they
  call (\<^verbatim>\<open>Number.prototype.toString\<close>, \<^verbatim>\<open>parseFloat\<close>, \<^verbatim>\<open>Number.prototype.toFixed\<close>,
  \<^verbatim>\<open>String.prototype.replace\<close> with a global regular expression, \<^verbatim>\<open>split\<close>).

  Strings are lists of code units (\<open>char\<close>); the code only ever tells ASCII
  characters apart. A Number is NaN, an infinity, or a finite value kept as the exact
  rational it denotes (the two zeros are not told apart: \<^verbatim>\<open>toString\<close> and
  \<^verbatim>\<open>toFixed\<close> print both the same way). A thrown \<^verbatim>\<open>RangeError\<close> is the
  \<open>Inl\<close> branch of a sum. The built-ins are those of the ECMAScript standard; the
  limits of an engine (the longest string it can build) are not part of the model.
\<close>

section \<open>Data model\<close>

text \<open>\<^verbatim>\<open>type Separator = "." | ","\<close> and the three props the formatter reads.\<close>

datatype Separator = Dot | Comma

fun sep_char :: "Separator \<Rightarrow> char" where
  "sep_char Dot = CHR ''.''"
| "sep_char Comma = CHR '',''"

record Configuration =
  decimalLength :: nat
  decimalSeparator :: Separator
  thousandSeparator :: Separator

text \<open>
  A Number value. \<open>Fin q\<close> is the finite double whose exact value is \<open>q\<close>;
  \<open>to_double\<close> below rounds any rational to such a value.
\<close>

datatype number = NaN | PosInf | NegInf | Fin rat

datatype error = RangeError

text \<open>The argument of \<^verbatim>\<open>formatCurrency\<close> has type \<^verbatim>\<open>string | number\<close>.\<close>

datatype jsvalue = Str string | Num number

section \<open>Decimal digits\<close>

text \<open>
  \<open>is_digit\<close> is the class \<^verbatim>\<open>[0-9]\<close> (and \<^verbatim>\<open>\d\<close>); \<open>digits_value\<close> is the
  mathematical value of a run of decimal digits; \<open>decimal_digits\<close> writes a natural
  number in base 10, most significant digit first, \<open>0\<close> as \<^verbatim>\<open>"0"\<close>.
\<close>

definition is_digit :: "char \<Rightarrow> bool" where
  "is_digit c = (c \<in> set ''0123456789'')"

definition digit_value :: "char \<Rightarrow> nat" where
  "digit_value c = of_char c - 48"

definition digit_char :: "nat \<Rightarrow> char" where
  "digit_char d = ''0123456789'' ! (d mod 10)"

definition digits_value :: "string \<Rightarrow> nat" where
  "digits_value ds = foldl (\<lambda>a c. 10 * a + digit_value c) 0 ds"

fun decimal_digits :: "nat \<Rightarrow> string" where
  "decimal_digits n =
     (if n < 10 then [digit_char n]
      else decimal_digits (n div 10) @ [digit_char (n mod 10)])"

declare decimal_digits.simps [simp del]

section \<open>Number values\<close>

text \<open>
  \<open>floor_log b n\<close> is the largest \<open>e\<close> with \<open>b ^ e \<le> n\<close> (for \<open>n \<ge> 1\<close>), and
  \<open>ilog b x\<close> the integer \<open>e\<close> with \<open>b ^ e \<le> x < b ^ (e + 1)\<close> for a positive
  rational \<open>x\<close>. \<open>to_double\<close> is the Number value of a real: the nearest IEEE 754
  binary64 value, ties to the even significand (53 bits, least exponent \<open>- 1074\<close>
  for the subnormal range), and an infinity from \<open>2 ^ 1024\<close> on.
\<close>

fun floor_log :: "nat \<Rightarrow> nat \<Rightarrow> nat" where
  "floor_log b n = (if b < 2 \<or> n < b then 0 else Suc (floor_log b (n div b)))"

declare floor_log.simps [simp del]

definition ilog :: "nat \<Rightarrow> rat \<Rightarrow> int" where
  "ilog b x =
     (if 1 \<le> x then int (floor_log b (nat \<lfloor>x\<rfloor>))
      else - int (Suc (floor_log b (nat \<lceil>1 / x\<rceil> - 1))))"

definition pow :: "nat \<Rightarrow> int \<Rightarrow> rat" where
  "pow b e = (if 0 \<le> e then of_nat b ^ nat e else 1 / of_nat b ^ nat (- e))"

definition round_half_even :: "rat \<Rightarrow> int" where
  "round_half_even x =
     (let f = \<lfloor>x\<rfloor>; d = x - of_int f
      in if d < 1 / 2 then f
         else if 1 / 2 < d then f + 1
         else if even f then f else f + 1)"

definition to_double :: "rat \<Rightarrow> number" where
  "to_double x =
     (if x = 0 then Fin 0
      else
        let a = \<bar>x\<bar>;
            e = max (ilog 2 a) (- 1022) - 52;
            m = round_half_even (a / pow 2 e);
            v = of_int m * pow 2 e
        in if 2 ^ 1024 \<le> v then (if x < 0 then NegInf else PosInf)
           else Fin (if x < 0 then - v else v))"

section \<open>parseFloat\<close>

text \<open>
  \<^verbatim>\<open>parseFloat(string)\<close>: white space is trimmed at the start, then the longest
  prefix that is a \<^verbatim>\<open>StrDecimalLiteral\<close> is read (an optional sign, then
  \<^verbatim>\<open>Infinity\<close>, or digits with an optional fraction and an optional exponent, or a
  fraction starting with the point); NaN when there is no such prefix. The value is
  the Number value of the literal's mathematical value, rounded once and correctly, as
  the engines do (the standard also allows a conversion that looks at the first 20
  significant digits only).
\<close>

definition is_white_space :: "char \<Rightarrow> bool" where
  "is_white_space c = (c \<in> set [CHR 0x09, CHR 0x0A, CHR 0x0B, CHR 0x0C, CHR 0x0D, CHR 0x20, CHR 0xA0])"

definition signed_integer :: "string \<Rightarrow> int option" where
  "signed_integer r =
     (case r of
        [] \<Rightarrow> None
      | c # r' \<Rightarrow>
          if c = CHR ''+'' then
            (if takeWhile is_digit r' = [] then None
             else Some (int (digits_value (takeWhile is_digit r'))))
          else if c = CHR ''-'' then
            (if takeWhile is_digit r' = [] then None
             else Some (- int (digits_value (takeWhile is_digit r'))))
          else if takeWhile is_digit r = [] then None
          else Some (int (digits_value (takeWhile is_digit r))))"

definition exponent_part :: "string \<Rightarrow> int" where
  "exponent_part r =
     (case r of
        [] \<Rightarrow> 0
      | c # r' \<Rightarrow>
          if c = CHR ''e'' \<or> c = CHR ''E'' then
            (case signed_integer r' of None \<Rightarrow> 0 | Some e \<Rightarrow> e)
          else 0)"

definition str_unsigned_decimal :: "string \<Rightarrow> rat option" where
  "str_unsigned_decimal t =
     (let ip = takeWhile is_digit t; r1 = dropWhile is_digit t
      in if r1 \<noteq> [] \<and> hd r1 = CHR ''.'' then
           (let fp = takeWhile is_digit (tl r1); r3 = dropWhile is_digit (tl r1)
            in if ip = [] \<and> fp = [] then None
               else Some (of_nat (digits_value (ip @ fp))
                            * pow 10 (exponent_part r3 - int (length fp))))
         else if ip = [] then None
         else Some (of_nat (digits_value ip) * pow 10 (exponent_part r1)))"

definition str_unsigned :: "string \<Rightarrow> number" where
  "str_unsigned u =
     (if take 8 u = ''Infinity'' then PosInf
      else case str_unsigned_decimal u of None \<Rightarrow> NaN | Some q \<Rightarrow> to_double q)"

fun negate :: "number \<Rightarrow> number" where
  "negate NaN = NaN"
| "negate PosInf = NegInf"
| "negate NegInf = PosInf"
| "negate (Fin q) = Fin (- q)"

definition parseFloat :: "string \<Rightarrow> number" where
  "parseFloat inputString =
     (let trimmed = dropWhile is_white_space inputString
      in case trimmed of
           [] \<Rightarrow> NaN
         | c # u \<Rightarrow>
             if c = CHR ''+'' then str_unsigned u
             else if c = CHR ''-'' then negate (str_unsigned u)
             else str_unsigned trimmed)"

definition isNaN :: "number \<Rightarrow> bool" where
  "isNaN x = (x = NaN)"

section \<open>Number to string\<close>

text \<open>
  \<^verbatim>\<open>Number::toString(x, 10)\<close>. For a finite positive \<open>x\<close> the digits are those of
  the integer \<open>s\<close> with the fewest digits \<open>k\<close> such that \<open>s * 10 ^ (n - k)\<close> reads
  back as \<open>x\<close>; of two such \<open>s\<close> the one nearer to \<open>x\<close> is taken, and the even one
  when both are equally near, as the standard recommends and the engines do. For each
  \<open>k\<close> only the two \<open>k\<close>-digit neighbours of \<open>x\<close> can read back as
  \<open>x\<close>, and 17 digits are always enough for a double. The four layouts (integer
  with trailing zeros, point inside, leading \<^verbatim>\<open>0.\<close>, exponent) are those of the
  standard.
\<close>

definition digits_candidate :: "rat \<Rightarrow> nat \<Rightarrow> (nat \<times> int) option" where
  "digits_candidate x k =
     (let n = ilog 10 x + 1;
          scale = pow 10 (n - int k);
          lo = nat \<lfloor>x / scale\<rfloor>;
          hi = lo + 1;
          ok_lo = (to_double (of_nat lo * scale) = Fin x);
          ok_hi = (to_double (of_nat hi * scale) = Fin x);
          above = of_nat hi * scale - x;
          below = x - of_nat lo * scale;
          pick_hi = (if ok_lo then ok_hi \<and> (above < below \<or> above = below \<and> even hi)
                     else ok_hi)
      in if pick_hi then Some (if hi = 10 ^ k then (10 ^ (k - 1), n + 1) else (hi, n))
         else if ok_lo then Some (lo, n)
         else None)"

primrec first_candidate :: "rat \<Rightarrow> nat list \<Rightarrow> (nat \<times> int) option" where
  "first_candidate x [] = None"
| "first_candidate x (k # ks) =
     (case digits_candidate x k of
        Some r \<Rightarrow> Some r
      | None \<Rightarrow> first_candidate x ks)"

definition shortest_digits :: "rat \<Rightarrow> nat \<times> int" where
  "shortest_digits x =
     (case first_candidate x [1, 2, 3, 4, 5, 6, 7, 8, 9, 10, 11, 12, 13, 14, 15, 16, 17] of
        Some r \<Rightarrow> r
      | None \<Rightarrow> (nat \<lfloor>x / pow 10 (ilog 10 x + 1 - 17)\<rfloor>, ilog 10 x + 1))"

definition positive_toString :: "rat \<Rightarrow> string" where
  "positive_toString x =
     (let (s, n) = shortest_digits x;
          ds = decimal_digits s;
          k = int (length ds)
      in if k \<le> n \<and> n \<le> 21 then ds @ replicate (nat (n - k)) (CHR ''0'')
         else if 0 < n \<and> n \<le> 21 then take (nat n) ds @ ''.'' @ drop (nat n) ds
         else if - 6 < n \<and> n \<le> 0 then ''0.'' @ replicate (nat (- n)) (CHR ''0'') @ ds
         else
           let e = n - 1;
               sign = (if e < 0 then CHR ''-'' else CHR ''+'');
               es = decimal_digits (nat \<bar>e\<bar>)
           in if k = 1 then ds @ ''e'' @ [sign] @ es
              else take 1 ds @ ''.'' @ drop 1 ds @ ''e'' @ [sign] @ es)"

definition Number_toString :: "number \<Rightarrow> string" where
  "Number_toString x =
     (case x of
        NaN \<Rightarrow> ''NaN''
      | PosInf \<Rightarrow> ''Infinity''
      | NegInf \<Rightarrow> ''-Infinity''
      | Fin q \<Rightarrow>
          if q = 0 then ''0''
          else if q < 0 then CHR ''-'' # positive_toString (- q)
          else positive_toString q)"

section \<open>toFixed\<close>

text \<open>
  \<^verbatim>\<open>Number.prototype.toFixed(fractionDigits)\<close>: a \<^verbatim>\<open>RangeError\<close> when
  \<open>fractionDigits\<close> is above 100; the \<^verbatim>\<open>toString\<close> text for a value that is not
  finite or is at least \<open>10 ^ 21\<close>; otherwise the digits of the integer \<open>n\<close> nearest to
  \<open>x * 10 ^ f\<close> (the larger on a tie), padded to \<open>f + 1\<close> digits, with the point before
  the last \<open>f\<close>.
\<close>

definition fixed_digits :: "rat \<Rightarrow> nat \<Rightarrow> string" where
  "fixed_digits x f =
     (if 10 ^ 21 \<le> x then positive_toString x
      else
        let n = nat \<lfloor>x * 10 ^ f + 1 / 2\<rfloor>;
            m = decimal_digits n
        in if f = 0 then m
           else
             let m' = (if length m \<le> f then replicate (f + 1 - length m) (CHR ''0'') @ m else m);
                 k = length m'
             in take (k - f) m' @ ''.'' @ drop (k - f) m')"

definition toFixed :: "number \<Rightarrow> nat \<Rightarrow> error + string" where
  "toFixed x f =
     (if 100 < f then Inl RangeError
      else case x of
             NaN \<Rightarrow> Inr ''NaN''
           | PosInf \<Rightarrow> Inr ''Infinity''
           | NegInf \<Rightarrow> Inr ''-Infinity''
           | Fin q \<Rightarrow> Inr ((if q < 0 then ''-'' else '''') @ fixed_digits \<bar>q\<bar> f))"

section \<open>String operations\<close>

text \<open>
  \<open>replace_global matches r s\<close> is \<^verbatim>\<open>s.replace(re, r)\<close> for a global regular
  expression \<^verbatim>\<open>re\<close> that matches exactly the single characters satisfying
  \<open>matches\<close>, and a replacement without \<^verbatim>\<open>$\<close>. \<open>split_on c s\<close> is
  \<^verbatim>\<open>s.split(c)\<close>, and \<open>index_opt parts i\<close> is \<^verbatim>\<open>parts[i]\<close>, \<open>None\<close> for
  \<^verbatim>\<open>undefined\<close>.

  \<open>insert_groups False sep s\<close> is
  \<^verbatim>\<open>s.replace(/\B(?=(\d{3})+(?!\d))/g, sep)\<close>: the expression matches the empty
  string at every position that is not a word boundary (\<open>prev_word\<close> says whether
  the character before the position is a word character) and is followed by a run of
  digits whose length is a positive multiple of three.
\<close>

definition replace_global :: "(char \<Rightarrow> bool) \<Rightarrow> string \<Rightarrow> string \<Rightarrow> string" where
  "replace_global matches replacement s =
     concat (map (\<lambda>c. if matches c then replacement else [c]) s)"

fun split_on :: "char \<Rightarrow> string \<Rightarrow> string list" where
  "split_on c [] = [[]]"
| "split_on c (x # xs) =
     (if x = c then [] # split_on c xs
      else case split_on c xs of
             [] \<Rightarrow> [[x]]
           | p # ps \<Rightarrow> (x # p) # ps)"

definition index_opt :: "'a list \<Rightarrow> nat \<Rightarrow> 'a option" where
  "index_opt xs i = (if i < length xs then Some (xs ! i) else None)"

definition is_word_char :: "char \<Rightarrow> bool" where
  "is_word_char c =
     (is_digit c \<or> c = CHR ''_''
      \<or> c \<in> set ''abcdefghijklmnopqrstuvwxyz''
      \<or> c \<in> set ''ABCDEFGHIJKLMNOPQRSTUVWXYZ'')"

definition digit_run :: "string \<Rightarrow> nat" where
  "digit_run s = length (takeWhile is_digit s)"

definition group_match :: "bool \<Rightarrow> string \<Rightarrow> bool" where
  "group_match prev_word rest =
     ((prev_word = (rest \<noteq> [] \<and> is_word_char (hd rest)))
      \<and> 0 < digit_run rest \<and> digit_run rest mod 3 = 0)"

fun insert_groups :: "bool \<Rightarrow> string \<Rightarrow> string \<Rightarrow> string" where
  "insert_groups prev_word sep [] = (if group_match prev_word [] then sep else [])"
| "insert_groups prev_word sep (c # cs) =
     (if group_match prev_word (c # cs) then sep else [])
       @ c # insert_groups (is_word_char c) sep cs"

section \<open>The formatter and the parser\<close>

text \<open>
  \<^verbatim>\<open>formatCurrency\<close>, statement by statement: \<open>value_string\<close> is line 166,
  \<open>zero_sentinel\<close> the template of lines 168, 174 and 182, \<open>numericValue\<close> lines
  170-171, \<open>normalizedValue\<close> lines 176-179, \<open>numberValue\<close> line 180 and
  \<open>assemble\<close> lines 185-193. \<^verbatim>\<open>parseCurrency\<close> is lines 201-208.
\<close>

definition zero_sentinel :: "Configuration \<Rightarrow> string" where
  "zero_sentinel cfg =
     ''0'' @ [sep_char (decimalSeparator cfg)] @ replicate (decimalLength cfg) (CHR ''0'')"

definition value_string :: "jsvalue \<Rightarrow> string" where
  "value_string v = (case v of Num x \<Rightarrow> Number_toString x | Str s \<Rightarrow> s)"

definition numericValue :: "Configuration \<Rightarrow> string \<Rightarrow> string" where
  "numericValue cfg s =
     replace_global (\<lambda>c. \<not> (is_digit c \<or> c = sep_char (decimalSeparator cfg))) [] s"

definition normalizedValue :: "Configuration \<Rightarrow> string \<Rightarrow> string" where
  "normalizedValue cfg s =
     replace_global (\<lambda>c. c = sep_char (decimalSeparator cfg)) ''.'' (numericValue cfg s)"

definition numberValue :: "Configuration \<Rightarrow> string \<Rightarrow> number" where
  "numberValue cfg s = parseFloat (normalizedValue cfg s)"

definition assemble :: "Configuration \<Rightarrow> string \<Rightarrow> string" where
  "assemble cfg fixedValue =
     (let parts = split_on (CHR ''.'') fixedValue;
          integerPart = hd parts;
          decimalPart =
            (case index_opt parts 1 of
               None \<Rightarrow> []
             | Some p \<Rightarrow> if p = [] then [] else sep_char (decimalSeparator cfg) # p);
          integerWithThousandSeparator =
            insert_groups False [sep_char (thousandSeparator cfg)] integerPart
      in integerWithThousandSeparator @ decimalPart)"

definition formatCurrency :: "Configuration \<Rightarrow> jsvalue \<Rightarrow> error + string" where
  "formatCurrency cfg v =
     (let s = value_string v
      in if s = [] then Inr (zero_sentinel cfg)
         else if numericValue cfg s = [] then Inr (zero_sentinel cfg)
         else if isNaN (numberValue cfg s) then Inr (zero_sentinel cfg)
         else case toFixed (numberValue cfg s) (decimalLength cfg) of
                Inl e \<Rightarrow> Inl e
              | Inr fixedValue \<Rightarrow> Inr (assemble cfg fixedValue))"

definition parseCurrency :: "Configuration \<Rightarrow> string \<Rightarrow> string" where
  "parseCurrency cfg s =
     replace_global (\<lambda>c. c = sep_char (decimalSeparator cfg)) ''.''
       (replace_global (\<lambda>c. c = sep_char (thousandSeparator cfg)) [] s)"

text \<open>
  The change handler (lines 221-223) formats the raw input, parses the formatted text
  and converts it to a Number; \<open>reformat\<close> formats the parsed text again.
\<close>

definition parsedValue :: "Configuration \<Rightarrow> jsvalue \<Rightarrow> error + number" where
  "parsedValue cfg userInput =
     (case formatCurrency cfg userInput of
        Inl e \<Rightarrow> Inl e
      | Inr formattedValue \<Rightarrow> Inr (parseFloat (parseCurrency cfg formattedValue)))"

definition reformat :: "Configuration \<Rightarrow> jsvalue \<Rightarrow> error + string" where
  "reformat cfg v =
     (case formatCurrency cfg v of
        Inl e \<Rightarrow> Inl e
      | Inr formattedValue \<Rightarrow> formatCurrency cfg (Str (parseCurrency cfg formattedValue)))"

section \<open>The display pattern of the specification\<close>

text \<open>
  The pattern the specification gives for a display string: an integer part of one to
  three digits followed by groups of the thousand separator and three digits, then,
  exactly when \<open>decimalLength\<close> is positive, the decimal separator and
  \<open>decimalLength\<close> digits.
\<close>

fun grouped_tail :: "char \<Rightarrow> string \<Rightarrow> bool" where
  "grouped_tail t [] = True"
| "grouped_tail t (s # a # b # c # rest) =
     (s = t \<and> is_digit a \<and> is_digit b \<and> is_digit c \<and> grouped_tail t rest)"
| "grouped_tail t _ = False"

definition grouped_integer :: "char \<Rightarrow> string \<Rightarrow> bool" where
  "grouped_integer t s =
     (1 \<le> digit_run s \<and> digit_run s \<le> 3 \<and> grouped_tail t (dropWhile is_digit s))"

definition is_DisplayString :: "Configuration \<Rightarrow> string \<Rightarrow> bool" where
  "is_DisplayString cfg s =
     (let t = sep_char (thousandSeparator cfg);
          d = sep_char (decimalSeparator cfg);
          f = decimalLength cfg
      in if f = 0 then grouped_integer t s
         else f + 1 \<le> length s
              \<and> grouped_integer t (take (length s - (f + 1)) s)
              \<and> drop (length s - (f + 1)) s \<noteq> []
              \<and> hd (drop (length s - (f + 1)) s) = d
              \<and> list_all is_digit (tl (drop (length s - (f + 1)) s)))"

section \<open>The parser\<close>

lemma replace_global_empty: "replace_global m [] s = filter (\<lambda>c. \<not> m c) s"
  by (induction s) (simp_all add: replace_global_def)

lemma replace_global_char: "replace_global m [r] s = map (\<lambda>c. if m c then r else c) s"
  by (induction s) (simp_all add: replace_global_def)

lemma parseCurrency_length: "length (parseCurrency cfg s) \<le> length s"
  by (simp add: parseCurrency_def replace_global_empty replace_global_char)

text \<open>
  C6: for every string and configuration, \<^verbatim>\<open>parseCurrency\<close> returns the input with
  every occurrence of the thousand separator removed and every occurrence of the
  decimal separator replaced by the character \<^verbatim>\<open>.\<close>; every other character is kept,
  in order.
\<close>

theorem parseCurrency_removes_and_replaces:
  "parseCurrency cfg s =
     map (\<lambda>c. if c = sep_char (decimalSeparator cfg) then CHR ''.'' else c)
       (filter (\<lambda>c. c \<noteq> sep_char (thousandSeparator cfg)) s)"
proof -
  let ?t = "sep_char (thousandSeparator cfg)" and ?d = "sep_char (decimalSeparator cfg)"
  have removed: "replace_global (\<lambda>c. c = ?t) [] s = filter (\<lambda>c. c \<noteq> ?t) s"
    by (simp add: replace_global_empty)
  have replaced: "replace_global (\<lambda>c. c = ?d) ''.'' r = map (\<lambda>c. if c = ?d then CHR ''.'' else c) r"
    for r
    by (simp add: replace_global_char)
  show ?thesis
    unfolding parseCurrency_def removed replaced ..
qed

section \<open>The zero sentinel\<close>

lemma numericValue_filter:
  "numericValue cfg s =
     filter (\<lambda>c. is_digit c \<or> c = sep_char (decimalSeparator cfg)) s"
  by (simp add: numericValue_def replace_global_empty)

text \<open>
  C5: the empty string, and every string without a digit and without the decimal
  separator (\<^verbatim>\<open>"abc"\<close>), is formatted as the zero sentinel: \<^verbatim>\<open>0\<close>, the decimal
  separator, and \<open>decimalLength\<close> zeros. Nothing is thrown.
\<close>

theorem format_zero_sentinel:
  assumes "\<forall>c \<in> set s. \<not> is_digit c \<and> c \<noteq> sep_char (decimalSeparator cfg)"
  shows "formatCurrency cfg (Str s) =
           Inr (''0'' @ [sep_char (decimalSeparator cfg)]
                  @ replicate (decimalLength cfg) (CHR ''0''))"
proof -
  from assms have "numericValue cfg s = []"
    by (simp add: numericValue_filter)
  then show ?thesis
    by (simp add: formatCurrency_def value_string_def zero_sentinel_def)
qed

theorem format_zero_sentinel_witness:
  "formatCurrency \<lparr>decimalLength = 2, decimalSeparator = Comma, thousandSeparator = Dot\<rparr>
     (Str ''abc'') = Inr ''0,00''
   \<and> formatCurrency \<lparr>decimalLength = 2, decimalSeparator = Comma, thousandSeparator = Dot\<rparr>
     (Str []) = Inr ''0,00''"
  using format_zero_sentinel
    [of "''abc''" "\<lparr>decimalLength = 2, decimalSeparator = Comma, thousandSeparator = Dot\<rparr>"]
    format_zero_sentinel
    [of "[]" "\<lparr>decimalLength = 2, decimalSeparator = Comma, thousandSeparator = Dot\<rparr>"]
  by (simp add: is_digit_def numeral_2_eq_2)

section \<open>Evaluating the model on concrete inputs\<close>

lemma floor_rat_numeral [simp]:
  "\<lfloor>numeral a / numeral b :: rat\<rfloor> = numeral a div numeral b"
  by (metis floor_divide_of_int_eq of_int_numeral)

lemma ceiling_rat_numeral [simp]:
  "\<lceil>numeral a / numeral b :: rat\<rceil> = - (- numeral a div numeral b)"
  by (metis ceiling_def floor_divide_of_int_eq minus_divide_left of_int_minus of_int_numeral)

lemmas eval_num =
  to_double_def ilog_def floor_log.simps pow_def round_half_even_def Let_def

lemmas eval_parse =
  parseFloat_def str_unsigned_def str_unsigned_decimal_def exponent_part_def
  signed_integer_def is_white_space_def is_digit_def digits_value_def digit_value_def

lemmas eval_str =
  shortest_digits_def digits_candidate_def positive_toString_def Number_toString_def
  decimal_digits.simps digit_char_def

lemmas eval_fixed = toFixed_def fixed_digits_def decimal_digits.simps digit_char_def

lemmas eval_text =
  value_string_def zero_sentinel_def numericValue_def normalizedValue_def assemble_def
  replace_global_def index_opt_def group_match_def digit_run_def is_word_char_def
  is_digit_def Let_def

text \<open>The Number \<^verbatim>\<open>1532.31\<close> of \<^verbatim>\<open>App.tsx\<close> prints as it is written.\<close>

lemma toString_1532_31: "Number_toString (to_double (153231 / 100)) = ''1532.31''"
  by (simp add: eval_str eval_num split del: if_split)

lemma toString_999999: "Number_toString (Fin 999999) = ''999999''"
  by (simp add: eval_str eval_num split del: if_split)

text \<open>
  The double \<open>3 / 2 ^ 24\<close> lies exactly half way between its two 17-digit
  neighbours, and no shorter digit string reads back as it; the even neighbour is
  printed.
\<close>

lemma tie_digits_1_4:
  "digits_candidate (3 / 16777216) 1 = None \<and> digits_candidate (3 / 16777216) 2 = None
   \<and> digits_candidate (3 / 16777216) 3 = None \<and> digits_candidate (3 / 16777216) 4 = None"
  by (simp add: digits_candidate_def eval_num split del: if_split)

lemma tie_digits_5_8:
  "digits_candidate (3 / 16777216) 5 = None \<and> digits_candidate (3 / 16777216) 6 = None
   \<and> digits_candidate (3 / 16777216) 7 = None \<and> digits_candidate (3 / 16777216) 8 = None"
  by (simp add: digits_candidate_def eval_num split del: if_split)

lemma tie_digits_9_12:
  "digits_candidate (3 / 16777216) 9 = None \<and> digits_candidate (3 / 16777216) 10 = None
   \<and> digits_candidate (3 / 16777216) 11 = None \<and> digits_candidate (3 / 16777216) 12 = None"
  by (simp add: digits_candidate_def eval_num split del: if_split)

lemma tie_digits_13_16:
  "digits_candidate (3 / 16777216) 13 = None \<and> digits_candidate (3 / 16777216) 14 = None
   \<and> digits_candidate (3 / 16777216) 15 = None \<and> digits_candidate (3 / 16777216) 16 = None"
  by (simp add: digits_candidate_def eval_num split del: if_split)

lemma tie_digits_17:
  "digits_candidate (3 / 16777216) 17 = Some (17881393432617188, - 6)"
  by (simp add: digits_candidate_def eval_num split del: if_split)

lemma toString_tie: "Number_toString (Fin (3 / 16777216)) = ''1.7881393432617188e-7''"
proof -
  have "shortest_digits (3 / 16777216) = (17881393432617188, - 6)"
    using tie_digits_1_4 tie_digits_5_8 tie_digits_9_12 tie_digits_13_16 tie_digits_17
    by (simp add: shortest_digits_def)
  then show ?thesis
    by (simp add: Number_toString_def positive_toString_def decimal_digits.simps digit_char_def
        split del: if_split)
qed

lemma parseFloat_153231: "parseFloat ''153231'' = Fin 153231"
  by (simp add: eval_parse eval_num split del: if_split)

lemma parseFloat_153231_00: "parseFloat ''153231.00'' = Fin 153231"
  by (simp add: eval_parse eval_num split del: if_split)

lemma parseFloat_15323100: "parseFloat ''15323100'' = Fin 15323100"
  by (simp add: eval_parse eval_num split del: if_split)

lemma parseFloat_999999: "parseFloat ''999999'' = Fin 999999"
  by (simp add: eval_parse eval_num split del: if_split)

lemma parseFloat_1: "parseFloat ''1'' = Fin 1"
  by (simp add: eval_parse eval_num split del: if_split)

lemma toFixed_153231: "toFixed (Fin 153231) 2 = Inr ''153231.00''"
  by (simp add: eval_fixed split del: if_split)

lemma toFixed_15323100: "toFixed (Fin 15323100) 2 = Inr ''15323100.00''"
  by (simp add: eval_fixed split del: if_split)

lemma toFixed_999999: "toFixed (Fin 999999) 0 = Inr ''999999''"
  by (simp add: eval_fixed split del: if_split)

text \<open>
  With the decimal separator \<^verbatim>\<open>,\<close> the filter of line 170 is \<^verbatim>\<open>[^0-9\,]\<close>: it
  removes the point that \<^verbatim>\<open>toString\<close> wrote, and the Number \<^verbatim>\<open>1532.31\<close> is
  formatted as \<^verbatim>\<open>153231\<close>.
\<close>

lemma format_1532_31_comma:
  "formatCurrency \<lparr>decimalLength = 2, decimalSeparator = Comma, thousandSeparator = Dot\<rparr>
     (Num (to_double (153231 / 100))) = Inr ''153.231,00''"
proof -
  let ?cfg = "\<lparr>decimalLength = 2, decimalSeparator = Comma, thousandSeparator = Dot\<rparr>"
  have filtered: "numericValue ?cfg ''1532.31'' = ''153231''"
    by (simp add: eval_text)
  have normalized: "normalizedValue ?cfg ''1532.31'' = ''153231''"
    by (simp add: eval_text)
  have assembled: "assemble ?cfg ''153231.00'' = ''153.231,00''"
    by (simp add: eval_text)
  show ?thesis
    by (simp add: formatCurrency_def value_string_def toString_1532_31 filtered
        numberValue_def normalized parseFloat_153231 isNaN_def toFixed_153231 assembled)
qed

lemma format_153231_00_comma:
  "formatCurrency \<lparr>decimalLength = 2, decimalSeparator = Comma, thousandSeparator = Dot\<rparr>
     (Str ''153231.00'') = Inr ''15.323.100,00''"
proof -
  let ?cfg = "\<lparr>decimalLength = 2, decimalSeparator = Comma, thousandSeparator = Dot\<rparr>"
  have filtered: "numericValue ?cfg ''153231.00'' = ''15323100''"
    by (simp add: eval_text)
  have normalized: "normalizedValue ?cfg ''153231.00'' = ''15323100''"
    by (simp add: eval_text)
  have assembled: "assemble ?cfg ''15323100.00'' = ''15.323.100,00''"
    by (simp add: eval_text)
  show ?thesis
    by (simp add: formatCurrency_def value_string_def filtered
        numberValue_def normalized parseFloat_15323100 isNaN_def toFixed_15323100 assembled)
qed

lemma parse_153_231_00_comma:
  "parseCurrency \<lparr>decimalLength = 2, decimalSeparator = Comma, thousandSeparator = Dot\<rparr>
     ''153.231,00'' = ''153231.00''"
  by (simp add: parseCurrency_def replace_global_def)

lemma format_999999:
  "formatCurrency \<lparr>decimalLength = 0, decimalSeparator = d, thousandSeparator = t\<rparr>
     (Num (Fin 999999)) = Inr (''999'' @ [sep_char t] @ ''999'')"
proof -
  let ?cfg = "\<lparr>decimalLength = 0, decimalSeparator = d, thousandSeparator = t\<rparr>"
  have filtered: "numericValue ?cfg ''999999'' = ''999999''"
    by (simp add: eval_text)
  have normalized: "normalizedValue ?cfg ''999999'' = ''999999''"
    by (cases d) (simp_all add: eval_text)
  have assembled: "assemble ?cfg ''999999'' = ''999'' @ [sep_char t] @ ''999''"
    by (simp add: eval_text)
  show ?thesis
    by (simp add: formatCurrency_def value_string_def toString_999999 filtered
        numberValue_def normalized parseFloat_999999 isNaN_def toFixed_999999 assembled)
qed

section \<open>Results and errors\<close>

lemma to_double_not_NaN: "to_double q \<noteq> NaN"
  by (simp add: to_double_def Let_def)

text \<open>
  C4, as the code has it: \<^verbatim>\<open>toFixed\<close> throws a \<^verbatim>\<open>RangeError\<close> when
  \<open>decimalLength\<close> is above 100, so the input \<^verbatim>\<open>"1"\<close> with \<open>decimalLength = 101\<close>
  makes \<^verbatim>\<open>formatCurrency\<close> throw.
\<close>

theorem format_throws_for_101_decimals:
  "formatCurrency \<lparr>decimalLength = 101, decimalSeparator = Comma, thousandSeparator = Dot\<rparr>
     (Str ''1'') = Inl RangeError"
proof -
  let ?cfg = "\<lparr>decimalLength = 101, decimalSeparator = Comma, thousandSeparator = Dot\<rparr>"
  have filtered: "numericValue ?cfg ''1'' = ''1''"
    by (simp add: eval_text)
  have normalized: "normalizedValue ?cfg ''1'' = ''1''"
    by (simp add: eval_text)
  show ?thesis
    by (simp add: formatCurrency_def value_string_def filtered numberValue_def normalized
        parseFloat_1 isNaN_def toFixed_def)
qed

text \<open>
  C4, amended: for every input string and every configuration with
  \<open>decimalLength \<le> 100\<close>, \<^verbatim>\<open>formatCurrency\<close> returns a string and throws nothing;
  \<^verbatim>\<open>parseCurrency\<close> returns a string for every configuration, no longer than its
  input. All functions of the model are total, so both calls terminate.
\<close>

theorem format_and_parse_return_strings:
  assumes "decimalLength cfg \<le> 100"
  shows "(\<exists>out. formatCurrency cfg (Str s) = Inr out)
         \<and> (\<exists>out. parseCurrency cfg s = out \<and> length out \<le> length s)"
proof -
  have "\<exists>out. toFixed x (decimalLength cfg) = Inr out" for x
    using assms by (cases x) (simp_all add: toFixed_def)
  then obtain fixedValue
    where "toFixed (numberValue cfg s) (decimalLength cfg) = Inr fixedValue"
    by blast
  then have "\<exists>out. formatCurrency cfg (Str s) = Inr out"
    by (simp add: formatCurrency_def value_string_def)
  moreover have "length (parseCurrency cfg s) \<le> length s"
    by (rule parseCurrency_length)
  ultimately show ?thesis by simp
qed

theorem format_and_parse_return_strings_witness:
  "(\<exists>out. formatCurrency
            \<lparr>decimalLength = 100, decimalSeparator = Comma, thousandSeparator = Dot\<rparr>
            (Str ''1'') = Inr out)
   \<and> (\<exists>out. parseCurrency
            \<lparr>decimalLength = 100, decimalSeparator = Comma, thousandSeparator = Dot\<rparr>
            ''1'' = out \<and> length out \<le> length ''1'')"
  using format_and_parse_return_strings
    [of "\<lparr>decimalLength = 100, decimalSeparator = Comma, thousandSeparator = Dot\<rparr>" "''1''"]
  by simp

section \<open>Number inputs and the comma as decimal separator\<close>

text \<open>
  C2: with \<open>decimalLength = 2\<close>, decimal separator \<^verbatim>\<open>,\<close> and thousand separator
  \<^verbatim>\<open>.\<close>, the claim expects \<^verbatim>\<open>formatCurrency(1532.31)\<close> to be \<^verbatim>\<open>"1.532,31"\<close>.
  The code returns \<^verbatim>\<open>"153.231,00"\<close>: the filter drops the point of
  \<^verbatim>\<open>"1532.31"\<close>, since only digits and the comma pass.
\<close>

theorem format_1532_31_comma_is_153_231_00:
  "formatCurrency \<lparr>decimalLength = 2, decimalSeparator = Comma, thousandSeparator = Dot\<rparr>
     (Num (to_double (153231 / 100))) = Inr ''153.231,00''
   \<and> formatCurrency \<lparr>decimalLength = 2, decimalSeparator = Comma, thousandSeparator = Dot\<rparr>
     (Num (to_double (153231 / 100))) \<noteq> Inr ''1.532,31''"
  by (simp add: format_1532_31_comma)

text \<open>
  C1: the claim expects the Number read back from the formatted text of \<open>v\<close> to be
  \<open>v\<close> rounded to \<open>decimalLength\<close> digits. For \<open>v = 1532.31\<close>, which has two
  fractional digits, and the separators of C2 the code reads back \<open>153231\<close>, a hundred
  times the value.
\<close>

theorem parsedValue_1532_31_comma_is_153231:
  "parsedValue \<lparr>decimalLength = 2, decimalSeparator = Comma, thousandSeparator = Dot\<rparr>
     (Num (to_double (153231 / 100))) = Inr (Fin 153231)
   \<and> to_double (153231 / 100) \<noteq> Fin 153231"
proof -
  have "to_double (153231 / 100) = Fin (3369585324714885 / 2199023255552)"
    by (simp add: eval_num split del: if_split)
  then have "to_double (153231 / 100) \<noteq> Fin 153231"
    by simp
  moreover have "parsedValue
      \<lparr>decimalLength = 2, decimalSeparator = Comma, thousandSeparator = Dot\<rparr>
      (Num (to_double (153231 / 100))) = Inr (Fin 153231)"
    by (simp add: parsedValue_def format_1532_31_comma parse_153_231_00_comma
        parseFloat_153231_00)
  ultimately show ?thesis
    by simp
qed

text \<open>
  C3: the claim expects formatting, parsing and formatting again to give the first
  formatted text. For \<open>v = 1532.31\<close> and the separators of C2 the first text is
  \<^verbatim>\<open>"153.231,00"\<close> and the second \<^verbatim>\<open>"15.323.100,00"\<close>: the parser writes a
  point, and the filter drops it again.
\<close>

theorem reformat_1532_31_comma_differs:
  "formatCurrency \<lparr>decimalLength = 2, decimalSeparator = Comma, thousandSeparator = Dot\<rparr>
     (Num (to_double (153231 / 100))) = Inr ''153.231,00''
   \<and> reformat \<lparr>decimalLength = 2, decimalSeparator = Comma, thousandSeparator = Dot\<rparr>
     (Num (to_double (153231 / 100))) = Inr ''15.323.100,00''"
  by (simp add: reformat_def format_1532_31_comma parse_153_231_00_comma
      format_153231_00_comma)

text \<open>
  With the separators of \<^verbatim>\<open>App.tsx\<close> (decimal separator \<^verbatim>\<open>.\<close>, thousand separator
  \<^verbatim>\<open>,\<close>) the point of \<^verbatim>\<open>"1532.31"\<close> passes the filter, and the same Number is
  formatted as \<^verbatim>\<open>"1,532.31"\<close>.
\<close>

lemma parseFloat_1532_31:
  "parseFloat ''1532.31'' = Fin (3369585324714885 / 2199023255552)"
  by (simp add: eval_parse eval_num split del: if_split)

lemma toFixed_1532_31:
  "toFixed (Fin (3369585324714885 / 2199023255552)) 2 = Inr ''1532.31''"
  by (simp add: eval_fixed split del: if_split)

lemma parse_1_532_31_dot:
  "parseCurrency \<lparr>decimalLength = 2, decimalSeparator = Dot, thousandSeparator = Comma\<rparr>
     ''1,532.31'' = ''1532.31''"
  by (simp add: parseCurrency_def replace_global_def)

lemma format_1532_31_dot:
  "formatCurrency \<lparr>decimalLength = 2, decimalSeparator = Dot, thousandSeparator = Comma\<rparr>
     (Num (to_double (153231 / 100))) = Inr ''1,532.31''"
proof -
  let ?cfg = "\<lparr>decimalLength = 2, decimalSeparator = Dot, thousandSeparator = Comma\<rparr>"
  have filtered: "numericValue ?cfg ''1532.31'' = ''1532.31''"
    by (simp add: eval_text)
  have normalized: "normalizedValue ?cfg ''1532.31'' = ''1532.31''"
    by (simp add: eval_text)
  have assembled: "assemble ?cfg ''1532.31'' = ''1,532.31''"
    by (simp add: eval_text)
  show ?thesis
    by (simp add: formatCurrency_def value_string_def toString_1532_31 filtered
        numberValue_def normalized parseFloat_1532_31 isNaN_def toFixed_1532_31 assembled)
qed

lemma parsedValue_1532_31_dot:
  "parsedValue \<lparr>decimalLength = 2, decimalSeparator = Dot, thousandSeparator = Comma\<rparr>
     (Num (to_double (153231 / 100))) = Inr (Fin (3369585324714885 / 2199023255552))"
  by (simp add: parsedValue_def format_1532_31_dot parse_1_532_31_dot parseFloat_1532_31)

section \<open>Minus signs\<close>

lemma sep_char_not_digit: "\<not> is_digit (sep_char x)"
  by (cases x) (simp_all add: is_digit_def)

lemma sep_char_not_minus: "sep_char x \<noteq> CHR ''-''"
  by (cases x) simp_all

lemma minus_not_digit: "\<not> is_digit (CHR ''-'')"
  by (simp add: is_digit_def)

lemma normalizedValue_map:
  "normalizedValue cfg s =
     map (\<lambda>c. if c = sep_char (decimalSeparator cfg) then CHR ''.'' else c) (numericValue cfg s)"
  by (simp add: normalizedValue_def replace_global_char)

lemma numericValue_minus: "numericValue cfg (CHR ''-'' # s) = numericValue cfg s"
  using sep_char_not_minus [of "decimalSeparator cfg"]
  by (simp add: numericValue_filter minus_not_digit)

lemma format_minus: "formatCurrency cfg (Str (CHR ''-'' # s)) = formatCurrency cfg (Str s)"
proof (cases "s = []")
  case True
  then show ?thesis
    by (simp add: formatCurrency_def value_string_def numericValue_minus)
      (simp add: numericValue_filter)
next
  case False
  then show ?thesis
    by (simp add: formatCurrency_def value_string_def numericValue_minus numberValue_def
        normalizedValue_map)
qed

lemma digit_char_digit: "is_digit (digit_char d)"
proof -
  have "d mod 10 < length ''0123456789''" by simp
  then have "''0123456789'' ! (d mod 10) \<in> set ''0123456789''"
    by (rule nth_mem)
  then show ?thesis
    by (simp only: is_digit_def digit_char_def)
qed

lemma decimal_digits_digits: "c \<in> set (decimal_digits n) \<Longrightarrow> is_digit c"
proof (induction n arbitrary: c rule: decimal_digits.induct)
  case (1 n)
  show ?case
  proof (cases "n < 10")
    case True
    with "1.prems" show ?thesis
      by (simp add: decimal_digits.simps [of n] digit_char_digit)
  next
    case False
    with "1.prems" "1.IH" show ?thesis
      by (auto simp add: decimal_digits.simps [of n] digit_char_digit)
  qed
qed

lemma pow_pos: "0 < b \<Longrightarrow> 0 < pow b e"
  by (simp add: pow_def)

lemma round_half_even_nonneg: "0 \<le> x \<Longrightarrow> 0 \<le> round_half_even x"
  by (simp add: round_half_even_def Let_def)

lemma to_double_nonneg:
  assumes "0 \<le> x"
  shows "to_double x \<noteq> NegInf \<and> (\<forall>q. to_double x = Fin q \<longrightarrow> 0 \<le> q)"
proof (cases "x = 0")
  case True
  then show ?thesis by (simp add: to_double_def)
next
  case False
  with assms have pos: "0 < x" by simp
  let ?e = "max (ilog 2 x) (- 1022) - 52"
  have "0 \<le> x / pow 2 ?e"
    using pos pow_pos [of 2 ?e] by simp
  then have "0 \<le> round_half_even (x / pow 2 ?e)"
    by (rule round_half_even_nonneg)
  then have "0 \<le> rat_of_int (round_half_even (x / pow 2 ?e)) * pow 2 ?e"
    using pow_pos [of 2 ?e] by simp
  with pos show ?thesis
    by (auto simp add: to_double_def Let_def)
qed

lemma str_unsigned_decimal_nonneg: "str_unsigned_decimal u = Some q \<Longrightarrow> 0 \<le> q"
  using pow_pos [of 10]
  by (auto simp add: str_unsigned_decimal_def Let_def less_imp_le split: if_splits)

lemma str_unsigned_nonneg:
  "str_unsigned u \<noteq> NegInf \<and> (\<forall>q. str_unsigned u = Fin q \<longrightarrow> 0 \<le> q)"
  using to_double_nonneg str_unsigned_decimal_nonneg
  by (auto simp add: str_unsigned_def split: option.splits)

lemma parseFloat_nonneg:
  assumes "\<forall>c \<in> set t. is_digit c \<or> c = CHR ''.''"
  shows "parseFloat t \<noteq> NegInf \<and> (\<forall>q. parseFloat t = Fin q \<longrightarrow> 0 \<le> q)"
proof (cases "dropWhile is_white_space t")
  case Nil
  show ?thesis
    unfolding parseFloat_def Let_def Nil by simp
next
  case (Cons c u)
  then have "c \<in> set t"
    by (metis list.set_intros(1) set_dropWhileD)
  with assms have "is_digit c \<or> c = CHR ''.''" by blast
  then have "c \<noteq> CHR ''+''" and "c \<noteq> CHR ''-''"
    by (auto simp add: is_digit_def)
  then show ?thesis
    unfolding parseFloat_def Let_def Cons
    using str_unsigned_nonneg [of "c # u"] by simp
qed

lemma ilog_nonneg: "1 \<le> x \<Longrightarrow> 0 \<le> ilog b x"
  by (simp add: ilog_def)

lemma digits_candidate_exponent:
  "digits_candidate x k = Some (s, n) \<Longrightarrow> ilog 10 x + 1 \<le> n"
  by (auto simp add: digits_candidate_def Let_def split: if_splits)

lemma first_candidate_exponent:
  "first_candidate x ks = Some (s, n) \<Longrightarrow> ilog 10 x + 1 \<le> n"
  by (induction ks) (auto split: option.splits dest: digits_candidate_exponent)

lemma shortest_digits_exponent:
  assumes "shortest_digits x = (s, n)"
  shows "ilog 10 x + 1 \<le> n"
proof -
  let ?ks = "[1, 2, 3, 4, 5, 6, 7, 8, 9, 10, 11, 12, 13, 14, 15, 16, 17] :: nat list"
  show ?thesis
  proof (cases "first_candidate x ?ks")
    case None
    with assms show ?thesis
      unfolding shortest_digits_def by (simp only: option.case prod.inject)
  next
    case (Some r)
    with assms have "first_candidate x ?ks = Some (s, n)"
      unfolding shortest_digits_def by (simp only: option.case)
    then show ?thesis
      by (rule first_candidate_exponent)
  qed
qed

lemma positive_toString_no_minus:
  assumes "1 \<le> x"
  shows "CHR ''-'' \<notin> set (positive_toString x)"
proof -
  obtain s n where sn: "shortest_digits x = (s, n)"
    by (cases "shortest_digits x")
  with assms have n: "1 \<le> n"
    using shortest_digits_exponent [OF sn] ilog_nonneg [of x 10] by simp
  have ds: "CHR ''-'' \<notin> set (decimal_digits m)" for m
    using decimal_digits_digits minus_not_digit by blast
  have tk: "CHR ''-'' \<notin> set (take i (decimal_digits m))" for i m
    using ds in_set_takeD by fastforce
  have dr: "CHR ''-'' \<notin> set (drop i (decimal_digits m))" for i m
    using ds in_set_dropD by fastforce
  show ?thesis
    using n by (simp add: positive_toString_def sn Let_def ds tk dr)
qed

lemma fixed_digits_no_minus:
  assumes "0 \<le> x"
  shows "CHR ''-'' \<notin> set (fixed_digits x f)"
proof (cases "10 ^ 21 \<le> x")
  case True
  then have "1 \<le> x"
    by (rule order_trans [rotated]) simp
  with True show ?thesis
    by (simp add: fixed_digits_def positive_toString_no_minus)
next
  case False
  have ds: "CHR ''-'' \<notin> set (decimal_digits m)" for m
    using decimal_digits_digits minus_not_digit by blast
  have pad: "CHR ''-'' \<notin> set (replicate i (CHR ''0'') @ decimal_digits m)" for i m
    using ds by auto
  have "CHR ''-'' \<notin> set (take i ys)" "CHR ''-'' \<notin> set (drop i ys)"
    if "CHR ''-'' \<notin> set ys" for i and ys :: string
    using that by (auto dest: in_set_takeD in_set_dropD)
  with False ds pad show ?thesis
    by (simp add: fixed_digits_def Let_def)
qed

lemma toFixed_no_minus:
  assumes "x \<noteq> NegInf" and "\<forall>q. x = Fin q \<longrightarrow> 0 \<le> q" and "toFixed x f = Inr m"
  shows "CHR ''-'' \<notin> set m"
proof (cases x)
  case (Fin q)
  with assms have q: "0 \<le> q" by simp
  then have "CHR ''-'' \<notin> set (fixed_digits \<bar>q\<bar> f)"
    using fixed_digits_no_minus [of "\<bar>q\<bar>" f] by simp
  with assms(3) Fin q show ?thesis
    by (auto simp add: toFixed_def split: if_splits)
qed (use assms in \<open>auto simp add: toFixed_def split: if_splits\<close>)

lemma split_on_nonempty: "split_on c s \<noteq> []"
  by (induction s) (auto split: list.splits)

lemma split_on_chars: "p \<in> set (split_on c s) \<Longrightarrow> set p \<subseteq> set s"
proof (induction s arbitrary: p)
  case Nil
  then show ?case by simp
next
  case (Cons x xs)
  show ?case
  proof (cases "x = c")
    case True
    with Cons show ?thesis by auto
  next
    case False
    obtain q qs where q: "split_on c xs = q # qs"
      using split_on_nonempty [of c xs] by (cases "split_on c xs") auto
    with Cons.prems False have "p = x # q \<or> p \<in> set qs" by simp
    moreover have "set q \<subseteq> set xs"
      using Cons.IH [of q] q by simp
    moreover have "set r \<subseteq> set xs" if "r \<in> set qs" for r
      using Cons.IH [of r] q that by simp
    ultimately show ?thesis by auto
  qed
qed

lemma insert_groups_chars: "set (insert_groups w sep s) \<subseteq> set sep \<union> set s"
  by (induction s arbitrary: w) auto

lemma assemble_chars:
  "set (assemble cfg m) \<subseteq>
     set m \<union> {sep_char (decimalSeparator cfg), sep_char (thousandSeparator cfg)}"
proof -
  let ?parts = "split_on (CHR ''.'') m"
  have "hd ?parts \<in> set ?parts"
    using split_on_nonempty by simp
  then have hd: "set (hd ?parts) \<subseteq> set m"
    by (rule split_on_chars)
  have ix: "set p \<subseteq> set m" if "index_opt ?parts 1 = Some p" for p
  proof -
    from that have "p \<in> set ?parts"
      by (auto simp add: index_opt_def split: if_splits)
    then show ?thesis by (rule split_on_chars)
  qed
  have grouped: "set (insert_groups False [sep_char (thousandSeparator cfg)] (hd ?parts))
          \<subseteq> set m \<union> {sep_char (decimalSeparator cfg), sep_char (thousandSeparator cfg)}"
    using insert_groups_chars [of False "[sep_char (thousandSeparator cfg)]" "hd ?parts"] hd
    by auto
  have decimal: "set (case index_opt ?parts 1 of None \<Rightarrow> []
            | Some p \<Rightarrow> if p = [] then [] else sep_char (decimalSeparator cfg) # p)
          \<subseteq> set m \<union> {sep_char (decimalSeparator cfg), sep_char (thousandSeparator cfg)}"
  proof (cases "index_opt ?parts 1")
    case None
    then show ?thesis by simp
  next
    case (Some p)
    with ix [of p] show ?thesis by auto
  qed
  from grouped decimal show ?thesis
    unfolding assemble_def Let_def set_append by (rule Un_least)
qed

lemma normalizedValue_chars:
  "c \<in> set (normalizedValue cfg s) \<Longrightarrow> is_digit c \<or> c = CHR ''.''"
  by (auto simp add: normalizedValue_map numericValue_filter split: if_splits)

lemma format_no_minus:
  assumes "formatCurrency cfg (Str s) = Inr out"
  shows "CHR ''-'' \<notin> set out"
proof -
  have sentinel: "CHR ''-'' \<notin> set (zero_sentinel cfg)"
    using sep_char_not_minus [of "decimalSeparator cfg"] by (auto simp add: zero_sentinel_def)
  have nn: "numberValue cfg s \<noteq> NegInf \<and> (\<forall>q. numberValue cfg s = Fin q \<longrightarrow> 0 \<le> q)"
    unfolding numberValue_def
    by (rule parseFloat_nonneg) (use normalizedValue_chars in blast)
  have fixed: "CHR ''-'' \<notin> set (assemble cfg m)"
    if "toFixed (numberValue cfg s) (decimalLength cfg) = Inr m" for m
  proof -
    from nn that have "CHR ''-'' \<notin> set m"
      using toFixed_no_minus by blast
    moreover have "sep_char (decimalSeparator cfg) \<noteq> CHR ''-''"
      and "sep_char (thousandSeparator cfg) \<noteq> CHR ''-''"
      by (rule sep_char_not_minus)+
    ultimately have "CHR ''-'' \<notin> set m
        \<union> {sep_char (decimalSeparator cfg), sep_char (thousandSeparator cfg)}"
      by simp
    then show ?thesis
      using assemble_chars [of cfg m] by (meson subsetD)
  qed
  from assms sentinel fixed show ?thesis
    by (auto simp add: formatCurrency_def value_string_def split: if_splits sum.splits)
qed

lemma format_value_string: "formatCurrency cfg v = formatCurrency cfg (Str (value_string v))"
  by (simp add: formatCurrency_def value_string_def)

lemma format_negative:
  assumes "0 < q"
  shows "formatCurrency cfg (Num (Fin (- q))) = formatCurrency cfg (Num (Fin q))"
proof -
  have "value_string (Num (Fin (- q))) = CHR ''-'' # value_string (Num (Fin q))"
    using assms by (simp add: value_string_def Number_toString_def)
  then show ?thesis
    using format_value_string [of cfg "Num (Fin (- q))"]
      format_value_string [of cfg "Num (Fin q)"] format_minus
    by simp
qed

text \<open>
  C9: for every input string \<open>s\<close>, the filtering pass keeps no minus sign, so
  \<^verbatim>\<open>formatCurrency("-" + s)\<close> equals \<^verbatim>\<open>formatCurrency(s)\<close>; a string returned by
  \<^verbatim>\<open>formatCurrency\<close>, for a string or a Number, never contains the character
  \<^verbatim>\<open>-\<close>; and a negative Number is formatted as its absolute value.
\<close>

theorem format_strips_minus:
  "formatCurrency cfg (Str (CHR ''-'' # s)) = formatCurrency cfg (Str s)
   \<and> CHR ''-'' \<notin> set (numericValue cfg s)
   \<and> (\<forall>v out. formatCurrency cfg v = Inr out \<longrightarrow> CHR ''-'' \<notin> set out)
   \<and> (\<forall>q. 0 < q \<longrightarrow>
         formatCurrency cfg (Num (Fin (- q))) = formatCurrency cfg (Num (Fin q)))"
proof -
  have "CHR ''-'' \<notin> set (numericValue cfg s)"
    using sep_char_not_minus [of "decimalSeparator cfg"]
    by (auto simp add: numericValue_filter minus_not_digit)
  moreover have "CHR ''-'' \<notin> set out" if "formatCurrency cfg v = Inr out" for v out
    using that format_value_string [of cfg v] format_no_minus by simp
  ultimately show ?thesis
    using format_minus format_negative by blast
qed

lemma parseFloat_1234_5: "parseFloat ''1234.5'' = Fin (2469 / 2)"
  by (simp add: eval_parse eval_num split del: if_split)

lemma toFixed_1234_5: "toFixed (Fin (2469 / 2)) 2 = Inr ''1234.50''"
  by (simp add: eval_fixed split del: if_split)

lemma format_1234_5_comma:
  "formatCurrency \<lparr>decimalLength = 2, decimalSeparator = Comma, thousandSeparator = Dot\<rparr>
     (Str ''1234,5'') = Inr ''1.234,50''"
proof -
  let ?cfg = "\<lparr>decimalLength = 2, decimalSeparator = Comma, thousandSeparator = Dot\<rparr>"
  have filtered: "numericValue ?cfg ''1234,5'' = ''1234,5''"
    by (simp add: eval_text)
  have normalized: "normalizedValue ?cfg ''1234,5'' = ''1234.5''"
    by (simp add: eval_text)
  have assembled: "assemble ?cfg ''1234.50'' = ''1.234,50''"
    by (simp add: eval_text)
  show ?thesis
    by (simp add: formatCurrency_def value_string_def filtered numberValue_def normalized
        parseFloat_1234_5 isNaN_def toFixed_1234_5 assembled)
qed

theorem format_strips_minus_witness:
  "formatCurrency \<lparr>decimalLength = 2, decimalSeparator = Comma, thousandSeparator = Dot\<rparr>
     (Str ''-1234,5'') = Inr ''1.234,50''
   \<and> CHR ''-'' \<notin> set (numericValue
         \<lparr>decimalLength = 2, decimalSeparator = Comma, thousandSeparator = Dot\<rparr> ''1234,5'')
   \<and> CHR ''-'' \<notin> set ''1.234,50''
   \<and> formatCurrency \<lparr>decimalLength = 2, decimalSeparator = Comma, thousandSeparator = Dot\<rparr>
         (Num (Fin (- 1))) =
       formatCurrency \<lparr>decimalLength = 2, decimalSeparator = Comma, thousandSeparator = Dot\<rparr>
         (Num (Fin 1))"
  using format_strips_minus
    [of "\<lparr>decimalLength = 2, decimalSeparator = Comma, thousandSeparator = Dot\<rparr>"
      "''1234,5''"]
  by (simp add: format_1234_5_comma)

section \<open>More than one decimal separator\<close>

lemma takeWhile_digits_dot:
  assumes "\<forall>c \<in> set ds. is_digit c" and "tail = [] \<or> hd tail = CHR ''.''"
  shows "takeWhile is_digit (ds @ tail) = ds" and "dropWhile is_digit (ds @ tail) = tail"
proof -
  have dot: "\<not> is_digit (CHR ''.'')"
    by (simp add: is_digit_def)
  have "takeWhile is_digit tail = []" and "dropWhile is_digit tail = tail"
    using assms(2) dot by (cases tail; simp)+
  with assms(1) show "takeWhile is_digit (ds @ tail) = ds"
    and "dropWhile is_digit (ds @ tail) = tail"
    by simp_all
qed

lemma exponent_part_dot: "tail = [] \<or> hd tail = CHR ''.'' \<Longrightarrow> exponent_part tail = 0"
  by (cases tail) (auto simp add: exponent_part_def)

lemma parseFloat_first_point:
  assumes d1: "d1 \<noteq> []" "\<forall>c \<in> set d1. is_digit c"
    and d2: "\<forall>c \<in> set d2. is_digit c"
    and tail: "tail = [] \<or> hd tail = CHR ''.''"
  shows "parseFloat (d1 @ CHR ''.'' # d2 @ tail) =
           to_double (of_nat (digits_value (d1 @ d2)) * pow 10 (- int (length d2)))"
proof -
  from d1 obtain a d1' where a: "d1 = a # d1'" and digit: "is_digit a"
    by (cases d1) auto
  let ?t = "d1 @ CHR ''.'' # d2 @ tail"
  have ws: "\<not> is_white_space a" and plus: "a \<noteq> CHR ''+''" and minus: "a \<noteq> CHR ''-''"
    and inf: "a \<noteq> CHR ''I''"
    using digit by (auto simp add: is_digit_def is_white_space_def)
  have trimmed: "dropWhile is_white_space ?t = ?t"
    using ws by (simp add: a)
  have "take 8 ?t \<noteq> ''Infinity''"
    using inf by (simp add: a)
  moreover have "str_unsigned_decimal ?t =
      Some (of_nat (digits_value (d1 @ d2)) * pow 10 (- int (length d2)))"
  proof -
    have ip: "takeWhile is_digit ?t = d1" and r1: "dropWhile is_digit ?t = CHR ''.'' # d2 @ tail"
      using takeWhile_digits_dot [of d1 "CHR ''.'' # d2 @ tail"] d1 by simp_all
    have fp: "takeWhile is_digit (d2 @ tail) = d2" and r3: "dropWhile is_digit (d2 @ tail) = tail"
      using takeWhile_digits_dot [of d2 tail] d2 tail by simp_all
    show ?thesis
      unfolding str_unsigned_decimal_def Let_def ip r1
      using d1(1) by (simp add: fp r3 exponent_part_dot [OF tail])
  qed
  ultimately have "str_unsigned ?t =
      to_double (of_nat (digits_value (d1 @ d2)) * pow 10 (- int (length d2)))"
    by (simp add: str_unsigned_def)
  moreover have "parseFloat ?t = str_unsigned ?t"
    unfolding parseFloat_def Let_def trimmed using plus minus by (simp add: a)
  ultimately show ?thesis by simp
qed

lemma format_second_separator:
  assumes "d1 \<noteq> []" and "\<forall>c \<in> set d1. is_digit c" and "\<forall>c \<in> set d2. is_digit c"
  shows "formatCurrency cfg
           (Str (d1 @ [sep_char (decimalSeparator cfg)] @ d2
                   @ [sep_char (decimalSeparator cfg)] @ rest)) =
         formatCurrency cfg (Str (d1 @ [sep_char (decimalSeparator cfg)] @ d2))"
    and "\<not> isNaN (numberValue cfg
           (d1 @ [sep_char (decimalSeparator cfg)] @ d2
              @ [sep_char (decimalSeparator cfg)] @ rest))"
proof -
  let ?sep = "sep_char (decimalSeparator cfg)"
  let ?f = "\<lambda>c. if c = ?sep then CHR ''.'' else c"
  let ?keep = "\<lambda>c. is_digit c \<or> c = ?sep"
  have keep: "filter ?keep ds = ds" if "\<forall>c \<in> set ds. is_digit c" for ds
    using that by (simp add: filter_id_conv)
  have same: "map ?f ds = ds" if "\<forall>c \<in> set ds. is_digit c" for ds
    using that sep_char_not_digit [of "decimalSeparator cfg"]
    by (induction ds) auto
  let ?long = "d1 @ [?sep] @ d2 @ [?sep] @ rest"
  let ?short = "d1 @ [?sep] @ d2"
  have n_long: "normalizedValue cfg ?long =
      d1 @ CHR ''.'' # d2 @ (CHR ''.'' # map ?f (filter ?keep rest))"
    by (simp add: normalizedValue_map numericValue_filter keep same assms)
  have n_short: "normalizedValue cfg ?short = d1 @ CHR ''.'' # d2 @ []"
    by (simp add: normalizedValue_map numericValue_filter keep same assms)
  have v_long: "numberValue cfg ?long =
      to_double (of_nat (digits_value (d1 @ d2)) * pow 10 (- int (length d2)))"
    unfolding numberValue_def n_long
    by (rule parseFloat_first_point) (use assms in simp_all)
  have v_short: "numberValue cfg ?short =
      to_double (of_nat (digits_value (d1 @ d2)) * pow 10 (- int (length d2)))"
    unfolding numberValue_def n_short
    by (rule parseFloat_first_point) (use assms in simp_all)
  have "numericValue cfg ?long \<noteq> []" and "numericValue cfg ?short \<noteq> []"
    using assms by (simp_all add: numericValue_filter keep)
  then show "formatCurrency cfg (Str ?long) = formatCurrency cfg (Str ?short)"
    using assms(1) v_long v_short by (simp add: formatCurrency_def value_string_def Let_def)
  show "\<not> isNaN (numberValue cfg ?long)"
    using v_long by (simp add: isNaN_def to_double_not_NaN)
qed

lemma digits_value_append:
  "digits_value (d1 @ d2) = digits_value d1 * 10 ^ length d2 + digits_value d2"
proof -
  define f where "f = (\<lambda>a c. 10 * a + digit_value c)"
  have "foldl f a ds = a * 10 ^ length ds + foldl f 0 ds" for a ds
  proof (induction ds rule: rev_induct)
    case Nil
    then show ?case by simp
  next
    case (snoc c ds)
    have "foldl f a (ds @ [c]) = 10 * foldl f a ds + digit_value c"
      by (simp add: f_def)
    also have "\<dots> = 10 * (a * 10 ^ length ds + foldl f 0 ds) + digit_value c"
      by (simp only: snoc.IH)
    also have "\<dots> = a * 10 ^ length (ds @ [c]) + (10 * foldl f 0 ds + digit_value c)"
      by (simp add: algebra_simps)
    also have "10 * foldl f 0 ds + digit_value c = foldl f 0 (ds @ [c])"
      by (simp add: f_def)
    finally show ?case .
  qed
  from this [of "foldl f 0 d1" d2] show ?thesis
    by (simp add: digits_value_def f_def)
qed

lemma decimal_value:
  "of_nat (digits_value (d1 @ d2)) * pow 10 (- int (length d2)) =
     (of_nat (digits_value d1) + of_nat (digits_value d2) / 10 ^ length d2 :: rat)"
  by (simp add: digits_value_append pow_def field_simps)

lemma format_after_second_separator:
  assumes "d1 \<noteq> []" and "\<forall>c \<in> set d1. is_digit c" and "\<forall>c \<in> set d2. is_digit c"
  shows "numberValue cfg
           (d1 @ [sep_char (decimalSeparator cfg)] @ d2
              @ [sep_char (decimalSeparator cfg)] @ rest) =
         to_double (of_nat (digits_value d1) + of_nat (digits_value d2) / 10 ^ length d2)"
    and "formatCurrency cfg
           (Str (d1 @ [sep_char (decimalSeparator cfg)] @ d2
                   @ [sep_char (decimalSeparator cfg)] @ rest)) =
         (case toFixed
                 (to_double (of_nat (digits_value d1) + of_nat (digits_value d2) / 10 ^ length d2))
                 (decimalLength cfg) of
            Inl e \<Rightarrow> Inl e
          | Inr fixedValue \<Rightarrow> Inr (assemble cfg fixedValue))"
proof -
  let ?sep = "sep_char (decimalSeparator cfg)"
  let ?f = "\<lambda>c. if c = ?sep then CHR ''.'' else c"
  let ?keep = "\<lambda>c. is_digit c \<or> c = ?sep"
  let ?long = "d1 @ [?sep] @ d2 @ [?sep] @ rest"
  let ?v = "to_double (of_nat (digits_value d1) + of_nat (digits_value d2) / 10 ^ length d2)"
  have keep: "filter ?keep ds = ds" if "\<forall>c \<in> set ds. is_digit c" for ds
    using that by (simp add: filter_id_conv)
  have same: "map ?f ds = ds" if "\<forall>c \<in> set ds. is_digit c" for ds
    using that sep_char_not_digit [of "decimalSeparator cfg"]
    by (induction ds) auto
  have normalized: "normalizedValue cfg ?long =
      d1 @ CHR ''.'' # d2 @ (CHR ''.'' # map ?f (filter ?keep rest))"
    by (simp add: normalizedValue_map numericValue_filter keep same assms)
  have "numberValue cfg ?long =
      to_double (of_nat (digits_value (d1 @ d2)) * pow 10 (- int (length d2)))"
    unfolding numberValue_def normalized
    by (rule parseFloat_first_point) (use assms in simp_all)
  then show read: "numberValue cfg ?long = ?v"
    by (simp only: decimal_value)
  have "numericValue cfg ?long \<noteq> []"
    using assms by (simp add: numericValue_filter keep)
  moreover have "?long \<noteq> []"
    using assms(1) by simp
  ultimately show "formatCurrency cfg (Str ?long) =
      (case toFixed ?v (decimalLength cfg) of
         Inl e \<Rightarrow> Inl e
       | Inr fixedValue \<Rightarrow> Inr (assemble cfg fixedValue))"
    using read
    by (simp add: formatCurrency_def value_string_def Let_def isNaN_def to_double_not_NaN)
qed

text \<open>
  C10: a raw input made of digits and at least two decimal separators, with a digit
  before the first separator, is \<open>d1 @ [sep] @ d2 @ [sep] @ rest\<close> with \<open>d1\<close> a
  non-empty run of digits and \<open>d2\<close> a run of digits. The Number read from it is the
  Number value of \<open>d1\<close> as integer part and \<open>d2\<close> as fraction: the first separator is
  the decimal point and everything from the second separator on is ignored. That
  Number is not NaN, the result is that Number fixed to \<open>decimalLength\<close> digits and
  regrouped (not the fallback for NaN), and it is the result for the prefix
  \<open>d1 @ [sep] @ d2\<close>, which ends just before the second separator. Nothing is asked of
  \<open>rest\<close>.
\<close>

theorem format_reads_up_to_second_separator:
  assumes "d1 \<noteq> []" and "\<forall>c \<in> set d1. is_digit c" and "\<forall>c \<in> set d2. is_digit c"
  shows "numberValue cfg
           (d1 @ [sep_char (decimalSeparator cfg)] @ d2
              @ [sep_char (decimalSeparator cfg)] @ rest) =
         to_double (of_nat (digits_value d1) + of_nat (digits_value d2) / 10 ^ length d2)
         \<and> \<not> isNaN (numberValue cfg
               (d1 @ [sep_char (decimalSeparator cfg)] @ d2
                  @ [sep_char (decimalSeparator cfg)] @ rest))
         \<and> formatCurrency cfg
             (Str (d1 @ [sep_char (decimalSeparator cfg)] @ d2
                     @ [sep_char (decimalSeparator cfg)] @ rest)) =
           (case toFixed
                   (to_double
                      (of_nat (digits_value d1) + of_nat (digits_value d2) / 10 ^ length d2))
                   (decimalLength cfg) of
              Inl e \<Rightarrow> Inl e
            | Inr fixedValue \<Rightarrow> Inr (assemble cfg fixedValue))
         \<and> formatCurrency cfg
             (Str (d1 @ [sep_char (decimalSeparator cfg)] @ d2
                     @ [sep_char (decimalSeparator cfg)] @ rest)) =
           formatCurrency cfg (Str (d1 @ [sep_char (decimalSeparator cfg)] @ d2))"
  using format_second_separator [OF assms, of cfg rest]
    format_after_second_separator [OF assms, of cfg rest]
  by simp

lemma to_double_1_2: "to_double (6 / 5) = Fin (5404319552844595 / 4503599627370496)"
  by (simp add: eval_num split del: if_split)

lemma toFixed_1_2: "toFixed (Fin (5404319552844595 / 4503599627370496)) 2 = Inr ''1.20''"
  by (simp add: eval_fixed split del: if_split)

theorem format_reads_up_to_second_separator_witness:
  "numberValue \<lparr>decimalLength = 2, decimalSeparator = Comma, thousandSeparator = Dot\<rparr>
     ''1,2,3'' = Fin (5404319552844595 / 4503599627370496)
   \<and> formatCurrency \<lparr>decimalLength = 2, decimalSeparator = Comma, thousandSeparator = Dot\<rparr>
       (Str ''1,2,3'') = Inr ''1,20''
   \<and> formatCurrency \<lparr>decimalLength = 2, decimalSeparator = Comma, thousandSeparator = Dot\<rparr>
       (Str ''1,2'') = Inr ''1,20''"
proof -
  let ?cfg = "\<lparr>decimalLength = 2, decimalSeparator = Comma, thousandSeparator = Dot\<rparr>"
  have assembled: "assemble ?cfg ''1.20'' = ''1,20''"
    by (simp add: eval_text)
  show ?thesis
    using format_reads_up_to_second_separator [of "''1''" "''2''" ?cfg "''3''"]
    by (auto simp add: is_digit_def digits_value_def digit_value_def to_double_1_2
        toFixed_1_2 assembled)
qed

section \<open>Grouping and the display pattern\<close>

lemma digit_is_word: "is_digit c \<Longrightarrow> is_word_char c"
  by (simp add: is_word_char_def)

lemma digit_run_digits: "\<forall>c \<in> set ds. is_digit c \<Longrightarrow> digit_run ds = length ds"
  by (simp add: digit_run_def takeWhile_eq_all_conv [THEN iffD2])

lemma insert_groups_start:
  assumes "is_digit c"
  shows "insert_groups False sep (c # cs) = c # insert_groups True sep cs"
  using assms by (simp add: group_match_def digit_is_word)

lemma insert_groups_inside:
  assumes "is_digit c" and "\<forall>x \<in> set cs. is_digit x"
  shows "insert_groups True sep (c # cs) =
           (if Suc (length cs) mod 3 = 0 then sep else []) @ c # insert_groups True sep cs"
proof -
  have "digit_run (c # cs) = length (c # cs)"
    using assms by (intro digit_run_digits) simp
  moreover have "is_word_char c"
    using assms by (simp add: digit_is_word)
  ultimately show ?thesis
    by (simp add: group_match_def)
qed

lemma mod3_steps:
  assumes "n mod 3 = (0::nat)"
  shows "Suc n mod 3 = 1" and "Suc (Suc n) mod 3 = 2" and "Suc (Suc (Suc n)) mod 3 = 0"
  using assms by presburger+

lemma insert_groups_triples:
  assumes "\<forall>c \<in> set ds. is_digit c" and "length ds mod 3 = 0"
  shows "grouped_tail t (insert_groups True [t] ds)"
  using assms
proof (induction ds rule: length_induct)
  case (1 ds)
  show ?case
  proof (cases ds)
    case Nil
    then show ?thesis by (simp add: group_match_def digit_run_def)
  next
    case (Cons a as)
    with "1.prems" obtain b c rest where ds: "ds = a # b # c # rest"
      by (cases as; cases "tl as") auto
    with "1.prems" have rest: "\<forall>c \<in> set rest. is_digit c" "length rest mod 3 = 0"
      by auto
    have "insert_groups True [t] ds = t # a # b # c # insert_groups True [t] rest"
      using "1.prems"(1) unfolding ds
      by (simp add: insert_groups_inside mod3_steps [OF rest(2)] rest(2)
          del: insert_groups.simps)
    moreover have "grouped_tail t (insert_groups True [t] rest)"
      using "1.IH" rest ds by simp
    ultimately show ?thesis
      using "1.prems"(1) ds by simp
  qed
qed

lemma insert_groups_grouped:
  assumes digits: "\<forall>c \<in> set ds. is_digit c" and "ds \<noteq> []" and t: "\<not> is_digit t"
  shows "grouped_integer t (insert_groups False [t] ds)"
proof -
  have lead: "grouped_integer t (h @ insert_groups True [t] r)"
    if "\<forall>c \<in> set h. is_digit c" "1 \<le> length h" "length h \<le> 3"
      "\<forall>c \<in> set r. is_digit c" "length r mod 3 = 0" for h r
  proof -
    have tail: "grouped_tail t (insert_groups True [t] r)"
      using that(4,5) by (rule insert_groups_triples)
    have stop: "takeWhile is_digit (insert_groups True [t] r) = []"
      "dropWhile is_digit (insert_groups True [t] r) = insert_groups True [t] r"
    proof -
      show "takeWhile is_digit (insert_groups True [t] r) = []"
      proof (cases r)
        case Nil
        then show ?thesis by (simp add: group_match_def digit_run_def)
      next
        case (Cons a as)
        with that(4,5) show ?thesis
          using t by (simp add: insert_groups_inside del: insert_groups.simps)
      qed
      then show "dropWhile is_digit (insert_groups True [t] r) = insert_groups True [t] r"
        by (metis takeWhile_dropWhile_id append_Nil)
    qed
    have "takeWhile is_digit (h @ insert_groups True [t] r) = h"
      and "dropWhile is_digit (h @ insert_groups True [t] r) = insert_groups True [t] r"
      using that(1) stop by simp_all
    with tail that(2,3) show ?thesis
      by (simp add: grouped_integer_def digit_run_def)
  qed
  from assms(2) obtain a as where ds: "ds = a # as"
    by (cases ds) auto
  consider (one) "length as mod 3 = 0" | (two) "length as mod 3 = 1" | (three) "length as mod 3 = 2"
    by (metis One_nat_def Suc_1 less_2_cases_iff mod_less_divisor not_less_less_Suc_eq
        numeral_3_eq_3 zero_less_Suc)
  then show ?thesis
  proof cases
    case one
    have "insert_groups False [t] ds = [a] @ insert_groups True [t] as"
      using digits by (simp add: ds insert_groups_start del: insert_groups.simps)
    moreover have "grouped_integer t ([a] @ insert_groups True [t] as)"
      using digits one by (intro lead) (simp_all add: ds)
    ultimately show ?thesis by simp
  next
    case two
    then obtain b bs where as: "as = b # bs"
      by (cases as) auto
    with two have bs: "length bs mod 3 = 0"
      by (simp add: mod_Suc split: if_splits)
    have "insert_groups False [t] ds = [a, b] @ insert_groups True [t] bs"
      using digits by (simp add: ds as insert_groups_start insert_groups_inside
          mod3_steps [OF bs] bs del: insert_groups.simps)
    moreover have "grouped_integer t ([a, b] @ insert_groups True [t] bs)"
      using digits bs by (intro lead) (simp_all add: ds as)
    ultimately show ?thesis by simp
  next
    case three
    then obtain b c cs where as: "as = b # c # cs"
      by (cases as; cases "tl as") auto
    with three have cs: "length cs mod 3 = 0"
      by (simp add: mod_Suc split: if_splits)
    have "insert_groups False [t] ds = [a, b, c] @ insert_groups True [t] cs"
      using digits
      by (simp add: ds as insert_groups_start insert_groups_inside mod3_steps [OF cs] cs
          del: insert_groups.simps)
    moreover have "grouped_integer t ([a, b, c] @ insert_groups True [t] cs)"
      using digits cs by (intro lead) (simp_all add: ds as)
    ultimately show ?thesis by simp
  qed
qed

lemma zero_is_digit: "is_digit (CHR ''0'')"
  by (simp add: is_digit_def)

lemma dot_not_digit: "\<not> is_digit (CHR ''.'')"
  by (simp add: is_digit_def)

lemma decimal_digits_nonempty: "decimal_digits n \<noteq> []"
  by (subst decimal_digits.simps) simp

lemma fixed_digits_shape:
  assumes "x < 10 ^ 21"
  obtains ip fp where "ip \<noteq> []" and "\<forall>c \<in> set ip. is_digit c" and "\<forall>c \<in> set fp. is_digit c"
    and "length fp = f"
    and "fixed_digits x f = (if f = 0 then ip else ip @ CHR ''.'' # fp)"
proof -
  let ?m = "decimal_digits (nat \<lfloor>x * 10 ^ f + 1 / 2\<rfloor>)"
  let ?m' = "if length ?m \<le> f then replicate (f + 1 - length ?m) (CHR ''0'') @ ?m else ?m"
  let ?k = "length ?m'"
  have digits: "\<forall>c \<in> set ?m'. is_digit c"
    using decimal_digits_digits zero_is_digit by auto
  have long: "f + 1 \<le> ?k"
    by auto
  have nonempty: "?m' \<noteq> []"
    using decimal_digits_nonempty by simp
  show ?thesis
  proof
    show "take (?k - f) ?m' \<noteq> []"
      using long nonempty by (simp del: replicate_Suc)
    show "\<forall>c \<in> set (take (?k - f) ?m'). is_digit c"
      using digits by (meson in_set_takeD)
    show "\<forall>c \<in> set (drop (?k - f) ?m'). is_digit c"
      using digits by (meson in_set_dropD)
    show "length (drop (?k - f) ?m') = f"
      using long by simp
    show "fixed_digits x f =
        (if f = 0 then take (?k - f) ?m' else take (?k - f) ?m' @ CHR ''.'' # drop (?k - f) ?m')"
      using assms decimal_digits_nonempty by (simp add: fixed_digits_def Let_def)
  qed
qed

lemma split_on_absent: "c \<notin> set s \<Longrightarrow> split_on c s = [s]"
  by (induction s) auto

lemma split_on_first: "c \<notin> set p \<Longrightarrow> split_on c (p @ c # rest) = p # split_on c rest"
  by (induction p) auto

lemma assemble_integer:
  assumes "\<forall>c \<in> set ip. is_digit c"
  shows "assemble cfg ip = insert_groups False [sep_char (thousandSeparator cfg)] ip"
proof -
  have "CHR ''.'' \<notin> set ip"
    using assms dot_not_digit by blast
  then show ?thesis
    by (simp add: assemble_def split_on_absent index_opt_def)
qed

lemma assemble_fraction:
  assumes "\<forall>c \<in> set ip. is_digit c" and "\<forall>c \<in> set fp. is_digit c" and "fp \<noteq> []"
  shows "assemble cfg (ip @ CHR ''.'' # fp) =
           insert_groups False [sep_char (thousandSeparator cfg)] ip
             @ sep_char (decimalSeparator cfg) # fp"
proof -
  have "CHR ''.'' \<notin> set ip" and "CHR ''.'' \<notin> set fp"
    using assms dot_not_digit by blast+
  then have "split_on (CHR ''.'') (ip @ CHR ''.'' # fp) = [ip, fp]"
    by (simp add: split_on_first split_on_absent)
  with assms(3) show ?thesis
    by (simp add: assemble_def index_opt_def)
qed

lemma DisplayString_integer:
  assumes "decimalLength cfg = 0" and "grouped_integer (sep_char (thousandSeparator cfg)) g"
  shows "is_DisplayString cfg g"
  using assms by (simp add: is_DisplayString_def)

lemma DisplayString_fraction:
  assumes "0 < decimalLength cfg" and "grouped_integer (sep_char (thousandSeparator cfg)) g"
    and "\<forall>c \<in> set fp. is_digit c" and "length fp = decimalLength cfg"
  shows "is_DisplayString cfg (g @ sep_char (decimalSeparator cfg) # fp)"
  using assms by (simp add: is_DisplayString_def Let_def list_all_iff)

lemma assemble_fixed_digits_DisplayString:
  assumes "x < 10 ^ 21"
  shows "is_DisplayString cfg (assemble cfg (fixed_digits x (decimalLength cfg)))"
proof -
  obtain ip fp where ip: "ip \<noteq> []" "\<forall>c \<in> set ip. is_digit c"
    and fp: "\<forall>c \<in> set fp. is_digit c" "length fp = decimalLength cfg"
    and shape: "fixed_digits x (decimalLength cfg) =
        (if decimalLength cfg = 0 then ip else ip @ CHR ''.'' # fp)"
    using fixed_digits_shape [OF assms, of "decimalLength cfg"] by blast
  have grouped: "grouped_integer (sep_char (thousandSeparator cfg))
      (insert_groups False [sep_char (thousandSeparator cfg)] ip)"
    using ip sep_char_not_digit by (intro insert_groups_grouped) simp_all
  show ?thesis
  proof (cases "decimalLength cfg = 0")
    case True
    then have "fixed_digits x (decimalLength cfg) = ip"
      using shape by simp
    then have "assemble cfg (fixed_digits x (decimalLength cfg)) =
        insert_groups False [sep_char (thousandSeparator cfg)] ip"
      by (simp only: assemble_integer [OF ip(2)])
    then show ?thesis
      using DisplayString_integer [OF True grouped] by (simp only:)
  next
    case False
    with fp(2) have nonempty: "fp \<noteq> []" by auto
    from False have "fixed_digits x (decimalLength cfg) = ip @ CHR ''.'' # fp"
      using shape by simp
    then have "assemble cfg (fixed_digits x (decimalLength cfg)) =
        insert_groups False [sep_char (thousandSeparator cfg)] ip
          @ sep_char (decimalSeparator cfg) # fp"
      by (simp only: assemble_fraction [OF ip(2) fp(1) nonempty])
    moreover have "0 < decimalLength cfg"
      using False by simp
    ultimately show ?thesis
      using DisplayString_fraction [OF _ grouped fp] by (simp only:)
  qed
qed

lemma zero_sentinel_DisplayString:
  assumes "0 < decimalLength cfg"
  shows "is_DisplayString cfg (zero_sentinel cfg)"
proof -
  have "grouped_integer (sep_char (thousandSeparator cfg)) ''0''"
    by (simp add: grouped_integer_def digit_run_def is_digit_def)
  then have "is_DisplayString cfg
      (''0'' @ sep_char (decimalSeparator cfg) # replicate (decimalLength cfg) (CHR ''0''))"
    using assms zero_is_digit by (intro DisplayString_fraction) simp_all
  then show ?thesis
    by (simp add: zero_sentinel_def)
qed

lemma numberValue_Fin_nonempty:
  assumes "numberValue cfg s = Fin q"
  shows "numericValue cfg s \<noteq> []" and "s \<noteq> []" and "0 \<le> q"
proof -
  show ne: "numericValue cfg s \<noteq> []"
  proof
    assume "numericValue cfg s = []"
    then have "numberValue cfg s = NaN"
      by (simp add: numberValue_def normalizedValue_map parseFloat_def)
    with assms show False by simp
  qed
  then show "s \<noteq> []"
    by (auto simp add: numericValue_filter)
  show "0 \<le> q"
    using assms parseFloat_nonneg [of "normalizedValue cfg s"] normalizedValue_chars
    unfolding numberValue_def by blast
qed

lemma format_main_path:
  assumes "numberValue cfg s = Fin q" and "q < 10 ^ 21" and "decimalLength cfg \<le> 100"
  shows "formatCurrency cfg (Str s) = Inr (assemble cfg (fixed_digits q (decimalLength cfg)))"
proof -
  note ne = numberValue_Fin_nonempty [OF assms(1)]
  have "toFixed (Fin q) (decimalLength cfg) = Inr (fixed_digits q (decimalLength cfg))"
    using assms(3) ne(3) by (simp add: toFixed_def)
  then show ?thesis
    using ne(1,2) by (simp add: formatCurrency_def value_string_def assms(1) isNaN_def)
qed

lemma format_numeric_path_DisplayString:
  assumes "numberValue cfg (value_string v) = Fin q" and "q < 10 ^ 21"
    and "decimalLength cfg \<le> 100"
  shows "\<exists>out. formatCurrency cfg v = Inr out \<and> is_DisplayString cfg out"
  using format_main_path [OF assms] assemble_fixed_digits_DisplayString [OF assms(2)]
    format_value_string [of cfg v]
  by simp

text \<open>
  When lines 184-193 run with \<open>decimalLength = 0\<close> on a value \<open>q\<close> below \<open>10 ^ 21\<close>,
  the result is the digits of the integer nearest to \<open>q\<close> with the thousand separator
  before every group of three, and nothing after them.
\<close>

lemma format_numeric_path_without_decimals:
  assumes zero: "decimalLength cfg = 0" and nv: "numberValue cfg (value_string v) = Fin q"
    and small: "q < 10 ^ 21"
  shows "formatCurrency cfg v =
           Inr (insert_groups False [sep_char (thousandSeparator cfg)]
                  (decimal_digits (nat \<lfloor>q + 1 / 2\<rfloor>)))"
    and "grouped_integer (sep_char (thousandSeparator cfg))
           (insert_groups False [sep_char (thousandSeparator cfg)]
              (decimal_digits (nat \<lfloor>q + 1 / 2\<rfloor>)))"
proof -
  let ?ds = "decimal_digits (nat \<lfloor>q + 1 / 2\<rfloor>)"
  have digits: "\<forall>c \<in> set ?ds. is_digit c"
    using decimal_digits_digits by blast
  have "fixed_digits q (decimalLength cfg) = ?ds"
    using small zero by (simp add: fixed_digits_def)
  moreover have "formatCurrency cfg (Str (value_string v)) =
      Inr (assemble cfg (fixed_digits q (decimalLength cfg)))"
    using nv small zero by (intro format_main_path) simp_all
  ultimately show "formatCurrency cfg v =
      Inr (insert_groups False [sep_char (thousandSeparator cfg)] ?ds)"
    using format_value_string [of cfg v] by (simp add: assemble_integer [OF digits])
  show "grouped_integer (sep_char (thousandSeparator cfg))
      (insert_groups False [sep_char (thousandSeparator cfg)] ?ds)"
    using digits decimal_digits_nonempty sep_char_not_digit
    by (intro insert_groups_grouped) simp_all
qed

lemma parseFloat_15e20:
  "parseFloat ''1500000000000000000000'' = Fin 1500000000000000000000"
  by (simp add: eval_parse eval_num split del: if_split)

lemma toFixed_15e20: "toFixed (Fin 1500000000000000000000) 0 = Inr ''1.5e+21''"
  by (simp add: toFixed_def fixed_digits_def eval_str eval_num split del: if_split)

lemma format_15e20_without_decimals:
  "formatCurrency \<lparr>decimalLength = 0, decimalSeparator = Comma, thousandSeparator = Dot\<rparr>
     (Str ''1500000000000000000000'') = Inr ''1,5e+21''"
proof -
  let ?cfg = "\<lparr>decimalLength = 0, decimalSeparator = Comma, thousandSeparator = Dot\<rparr>"
  have filtered: "numericValue ?cfg ''1500000000000000000000'' = ''1500000000000000000000''"
    by (simp add: eval_text)
  have normalized: "normalizedValue ?cfg ''1500000000000000000000'' = ''1500000000000000000000''"
    by (simp add: eval_text)
  have assembled: "assemble ?cfg ''1.5e+21'' = ''1,5e+21''"
    by (simp add: eval_text)
  show ?thesis
    by (simp add: formatCurrency_def value_string_def filtered numberValue_def normalized
        parseFloat_15e20 isNaN_def toFixed_15e20 assembled)
qed

text \<open>
  C7: with \<open>decimalLength = 0\<close> the claim expects the digits grouped in threes and no
  separator or fraction after them. For the Number \<open>999999\<close> the code does that:
  \<^verbatim>\<open>"999.999"\<close> with the thousand separator \<^verbatim>\<open>.\<close> and \<^verbatim>\<open>"999,999"\<close> with \<^verbatim>\<open>,\<close>. For
  the empty input it returns \<^verbatim>\<open>"0,"\<close>, the sentinel with its decimal separator at the
  end, and for \<^verbatim>\<open>"1500000000000000000000"\<close> it returns \<^verbatim>\<open>"1,5e+21"\<close>, a decimal
  separator and a fraction in exponent notation.
\<close>

theorem format_without_decimals_trailing_separator:
  "formatCurrency \<lparr>decimalLength = 0, decimalSeparator = Comma, thousandSeparator = Dot\<rparr>
     (Str []) = Inr ''0,''
   \<and> formatCurrency \<lparr>decimalLength = 0, decimalSeparator = Comma, thousandSeparator = Dot\<rparr>
       (Str ''1500000000000000000000'') = Inr ''1,5e+21''
   \<and> formatCurrency \<lparr>decimalLength = 0, decimalSeparator = d, thousandSeparator = Dot\<rparr>
       (Num (Fin 999999)) = Inr ''999.999''
   \<and> formatCurrency \<lparr>decimalLength = 0, decimalSeparator = d, thousandSeparator = Comma\<rparr>
       (Num (Fin 999999)) = Inr ''999,999''"
proof -
  have "formatCurrency \<lparr>decimalLength = 0, decimalSeparator = Comma, thousandSeparator = Dot\<rparr>
     (Str []) = Inr ''0,''"
    by (simp add: formatCurrency_def value_string_def zero_sentinel_def)
  then show ?thesis
    by (simp add: format_15e20_without_decimals format_999999)
qed

text \<open>
  C8: the claim expects every result of \<^verbatim>\<open>formatCurrency\<close> to match the display
  pattern. With \<open>decimalLength = 0\<close> the empty input is formatted as \<^verbatim>\<open>"0,"\<close>: the
  sentinel always writes the decimal separator, where line 187 leaves it out when
  there is no fraction (the input \<^verbatim>\<open>"0"\<close> is formatted as \<^verbatim>\<open>"0"\<close>, see
  \<open>format_numeric_path_DisplayString\<close>).
\<close>

theorem format_empty_without_decimals_not_DisplayString:
  "formatCurrency \<lparr>decimalLength = 0, decimalSeparator = Comma, thousandSeparator = Dot\<rparr>
     (Str []) = Inr ''0,''
   \<and> \<not> is_DisplayString
         \<lparr>decimalLength = 0, decimalSeparator = Comma, thousandSeparator = Dot\<rparr> ''0,''
   \<and> formatCurrency \<lparr>decimalLength = 0, decimalSeparator = Comma, thousandSeparator = Dot\<rparr>
     (Str ''0'') = Inr ''0''"
proof -
  let ?cfg = "\<lparr>decimalLength = 0, decimalSeparator = Comma, thousandSeparator = Dot\<rparr>"
  have "formatCurrency ?cfg (Str []) = Inr ''0,''"
    by (simp add: formatCurrency_def value_string_def zero_sentinel_def)
  moreover have "\<not> is_DisplayString ?cfg ''0,''"
    by (simp add: is_DisplayString_def grouped_integer_def digit_run_def is_digit_def)
  moreover have "formatCurrency ?cfg (Str ''0'') = Inr ''0''"
  proof -
    have filtered: "numericValue ?cfg ''0'' = ''0''"
      by (simp add: eval_text)
    have normalized: "normalizedValue ?cfg ''0'' = ''0''"
      by (simp add: eval_text)
    have parsed: "parseFloat ''0'' = Fin 0"
      by (simp add: eval_parse eval_num split del: if_split)
    have fixed: "toFixed (Fin 0) 0 = Inr ''0''"
      by (simp add: eval_fixed split del: if_split)
    have assembled: "assemble ?cfg ''0'' = ''0''"
      by (simp add: eval_text)
    show ?thesis
      by (simp add: formatCurrency_def value_string_def filtered numberValue_def normalized
          parsed isNaN_def fixed assembled)
  qed
  ultimately show ?thesis by simp
qed

text \<open>
  A second kind of result outside the pattern: from \<open>10 ^ 21\<close> on, \<^verbatim>\<open>toFixed\<close>
  answers in exponent notation, and \<^verbatim>\<open>formatCurrency\<close> returns that text.
\<close>

lemma format_1e21:
  "formatCurrency \<lparr>decimalLength = 2, decimalSeparator = Comma, thousandSeparator = Dot\<rparr>
     (Str ''1000000000000000000000'') = Inr ''1e+21''"
proof -
  let ?cfg = "\<lparr>decimalLength = 2, decimalSeparator = Comma, thousandSeparator = Dot\<rparr>"
  have filtered: "numericValue ?cfg ''1000000000000000000000'' = ''1000000000000000000000''"
    by (simp add: eval_text)
  have normalized: "normalizedValue ?cfg ''1000000000000000000000'' = ''1000000000000000000000''"
    by (simp add: eval_text)
  have parsed: "parseFloat ''1000000000000000000000'' = Fin 1000000000000000000000"
    by (simp add: eval_parse eval_num split del: if_split)
  have fixed: "toFixed (Fin 1000000000000000000000) 2 = Inr ''1e+21''"
    by (simp add: toFixed_def fixed_digits_def eval_str eval_num split del: if_split)
  have assembled: "assemble ?cfg ''1e+21'' = ''1e+21''"
    by (simp add: eval_text)
  show ?thesis
    by (simp add: formatCurrency_def value_string_def filtered numberValue_def normalized
        parsed isNaN_def fixed assembled)
qed

end
